theory Spec2Isabelle
  imports Main "HOL-Library.Word"
begin

section \<open>The oven controller of CustomOvenControl.ino\<close>

text \<open>
  The sketch targets an AVR board (pins 39 to 53 and A0 to A2): \<open>char\<close> is a signed
  8-bit integer, \<open>int\<close> a signed 16-bit integer and \<open>long\<close> a signed 32-bit integer.
  Numeric values are machine words read through \<open>sint\<close>; arithmetic on them wraps
  around in two's complement, which is what the target's instructions compute.
  Hardware effects (pin writes, delays, display commands) are recorded in the state:
  the pin levels as a map from pin number to level, and every command in the order it
  was issued in the list \<open>events\<close>.
\<close>

subsection \<open>Data\<close>

datatype level = LOW | HIGH

datatype pin_mode = INPUT | OUTPUT

datatype event =
    PinMode nat pin_mode
  | DigitalWrite nat level
  | Delay nat
  | LcdBegin nat nat
  | LcdSetCursor nat nat
  | LcdPrint string
  | LcdPrintChar char
  | LcdPrintNum int
  | LcdClear

text \<open>The states for the oven (the \<open>#define\<close> constants) and the global variables.\<close>

definition INPUT_PHASE :: "8 word" where "INPUT_PHASE = 0"
definition HEATING :: "8 word" where "HEATING = 1"
definition COOLING :: "8 word" where "COOLING = 2"
definition BAKING :: "8 word" where "BAKING = 3"
definition END_OF_BAKING :: "8 word" where "END_OF_BAKING = 4"
definition VENTILATION :: "8 word" where "VENTILATION = 5"

lemmas oven_states =
  INPUT_PHASE_def HEATING_def COOLING_def BAKING_def END_OF_BAKING_def VENTILATION_def

record oven =
  ovenState :: "8 word"
  inputString :: string
  inputTemperature :: "32 word"
  inputTime :: "32 word"
  tempOrTime :: "8 word"
  startTime1 :: "32 word"
  startTime2 :: "32 word"
  elapsedTime :: "16 word"
  pins :: "nat \<Rightarrow> level"
  events :: "event list"

text \<open>
  What one pass of \<open>loop\<close> reads from the hardware: the key returned by
  \<open>customKeypad.getKey()\<close> (the character 0 when no key is pressed), the value of the
  k-th call of \<open>calculateAverageTemperature()\<close> in this pass (every branch samples
  afresh), and the values of \<open>millis()\<close> read in \<open>readInputs\<close> and in \<open>loop\<close>.
  \<open>calculateAverageTemperature\<close> itself is floating-point arithmetic on three analog
  channels; only its 16-bit integer result enters the control logic.
\<close>

record cycle_env =
  key :: char
  temp :: "nat \<Rightarrow> 16 word"
  now_input :: "32 word"
  now_loop :: "32 word"

definition hexaKeys :: "char list list" where
  "hexaKeys =
    [[CHR ''1'', CHR ''2'', CHR ''3'', CHR ''A''],
     [CHR ''4'', CHR ''5'', CHR ''6'', CHR ''B''],
     [CHR ''7'', CHR ''8'', CHR ''9'', CHR ''C''],
     [CHR ''*'', CHR ''0'', CHR ''#'', CHR ''D'']]"

text \<open>The value of a \<open>char\<close> in a comparison: promoted to a signed integer.\<close>

definition char_val :: "char \<Rightarrow> int" where
  "char_val c = sint (of_nat (of_char c) :: 8 word)"

subsection \<open>Hardware primitives\<close>

definition emit :: "event \<Rightarrow> oven \<Rightarrow> oven" where
  "emit ev s = s\<lparr>events := events s @ [ev]\<rparr>"

definition pinMode :: "nat \<Rightarrow> pin_mode \<Rightarrow> oven \<Rightarrow> oven" where
  "pinMode p m s = emit (PinMode p m) s"

definition digitalWrite :: "nat \<Rightarrow> level \<Rightarrow> oven \<Rightarrow> oven" where
  "digitalWrite p v s = emit (DigitalWrite p v) (s\<lparr>pins := (pins s)(p := v)\<rparr>)"

definition delay :: "nat \<Rightarrow> oven \<Rightarrow> oven" where
  "delay ms s = emit (Delay ms) s"

definition lcd_begin :: "nat \<Rightarrow> nat \<Rightarrow> oven \<Rightarrow> oven" where
  "lcd_begin c r s = emit (LcdBegin c r) s"

definition lcd_setCursor :: "nat \<Rightarrow> nat \<Rightarrow> oven \<Rightarrow> oven" where
  "lcd_setCursor c r s = emit (LcdSetCursor c r) s"

definition lcd_print :: "string \<Rightarrow> oven \<Rightarrow> oven" where
  "lcd_print txt s = emit (LcdPrint txt) s"

definition lcd_print_char :: "char \<Rightarrow> oven \<Rightarrow> oven" where
  "lcd_print_char c s = emit (LcdPrintChar c) s"

definition lcd_print_num :: "int \<Rightarrow> oven \<Rightarrow> oven" where
  "lcd_print_num n s = emit (LcdPrintNum n) s"

definition lcd_clear :: "oven \<Rightarrow> oven" where
  "lcd_clear s = emit LcdClear s"

text \<open>
  \<open>String::toInt\<close> belongs to the Arduino core library, not to the sketch: it reads the
  leading decimal digits and accumulates them in a \<open>long\<close>. The pending string holds
  digits only. The accumulation is not checked: a number that does not fit a \<open>long\<close>
  wraps around, as every other 32-bit operation of the target does.
\<close>

fun toInt_acc :: "32 word \<Rightarrow> string \<Rightarrow> 32 word" where
  "toInt_acc acc [] = acc"
| "toInt_acc acc (c # cs) =
     (if (48::nat) \<le> of_char c \<and> of_char c \<le> (57::nat)
      then toInt_acc (acc * 10 + of_nat (of_char c - 48)) cs
      else acc)"

definition toInt :: "string \<Rightarrow> 32 word" where
  "toInt str = toInt_acc 0 str"

subsection \<open>Actuators\<close>

definition initializeTemperatureSensors :: "oven \<Rightarrow> oven" where
  "initializeTemperatureSensors s =
     (let s = pinMode 54 INPUT s;
          s = pinMode 55 INPUT s;
          s = pinMode 56 INPUT s
      in s)"

definition initializeHeatingElements :: "oven \<Rightarrow> oven" where
  "initializeHeatingElements s =
     (let s = pinMode 52 OUTPUT s;
          s = pinMode 50 OUTPUT s;
          s = pinMode 48 OUTPUT s
      in s)"

definition activateHeatingElements :: "8 word \<Rightarrow> oven \<Rightarrow> oven" where
  "activateHeatingElements numElements s =
     (if numElements = 0 then
        (let s = digitalWrite 52 LOW s;
             s = digitalWrite 50 LOW s;
             s = digitalWrite 48 LOW s
         in s)
      else if numElements = 1 then
        (let s = digitalWrite 52 HIGH s;
             s = digitalWrite 50 LOW s;
             s = digitalWrite 48 LOW s
         in s)
      else if numElements = 2 then
        (let s = digitalWrite 52 HIGH s;
             s = digitalWrite 50 HIGH s;
             s = digitalWrite 48 LOW s
         in s)
      else if numElements = 3 then
        (let s = digitalWrite 52 HIGH s;
             s = digitalWrite 50 HIGH s;
             s = digitalWrite 48 HIGH s
         in s)
      else s)"

definition turnFanClockwise :: "oven \<Rightarrow> oven" where
  "turnFanClockwise s =
     (let s = digitalWrite 22 HIGH s;
          s = digitalWrite 24 LOW s
      in s)"

definition turnOffFan :: "oven \<Rightarrow> oven" where
  "turnOffFan s =
     (let s = digitalWrite 22 LOW s;
          s = digitalWrite 24 LOW s
      in s)"

definition turnFanAntiClockwise :: "oven \<Rightarrow> oven" where
  "turnFanAntiClockwise s =
     (let s = digitalWrite 22 LOW s;
          s = digitalWrite 24 HIGH s
      in s)"

definition initializeFan :: "oven \<Rightarrow> oven" where
  "initializeFan s =
     (let s = pinMode 22 OUTPUT s;
          s = pinMode 24 OUTPUT s;
          s = turnOffFan s
      in s)"

definition initializeLCD :: "oven \<Rightarrow> oven" where
  "initializeLCD s =
     (let s = lcd_begin 16 2 s;
          s = lcd_print ''Enter temp: '' s
      in s)"

subsection \<open>Input collection\<close>

definition is_digit_key :: "char \<Rightarrow> bool" where
  "is_digit_key customKey \<longleftrightarrow>
     char_val (CHR ''0'') \<le> char_val customKey \<and> char_val customKey \<le> char_val (CHR ''9'')"

definition readInputs :: "cycle_env \<Rightarrow> oven \<Rightarrow> oven" where
  "readInputs e s =
     (if tempOrTime s = 0 then
        (let customKey = key e in
         if customKey \<noteq> CHR 0x00 then
           if is_digit_key customKey then
             (let s = s\<lparr>inputString := inputString s @ [customKey]\<rparr>;
                  s = lcd_print_char customKey s
              in s)
           else if customKey = CHR ''#'' then
             if length (inputString s) > 0 then
               (let s = s\<lparr>inputTemperature := toInt (inputString s)\<rparr>;
                    s = s\<lparr>inputString := ''''\<rparr>;
                    s = s\<lparr>tempOrTime := 1\<rparr>;
                    s = lcd_clear s;
                    s = lcd_print ''Enter time:'' s
                in s)
             else s
           else s
         else s)
      else if tempOrTime s = 1 then
        (let customKey = key e in
         if customKey \<noteq> CHR 0x00 then
           if is_digit_key customKey then
             (let s = s\<lparr>inputString := inputString s @ [customKey]\<rparr>;
                  s = lcd_print_char customKey s
              in s)
           else if customKey = CHR ''#'' then
             (let s = s\<lparr>startTime1 := now_input e\<rparr> in
              if length (inputString s) > 0 then
                (let s = s\<lparr>inputTime := toInt (inputString s)\<rparr>;
                     s = s\<lparr>inputString := ''''\<rparr>;
                     s = s\<lparr>ovenState := HEATING\<rparr>;
                     s = s\<lparr>tempOrTime := 0\<rparr>;
                     s = lcd_clear s
                 in s)
              else s)
           else s
         else s)
      else s)"

subsection \<open>The state handlers\<close>

definition performHeating :: "(nat \<Rightarrow> 16 word) \<Rightarrow> oven \<Rightarrow> oven" where
  "performHeating calculateAverageTemperature s =
     (let s = lcd_setCursor 0 0 s;
          s = lcd_print ''HEATING'' s;
          s = lcd_setCursor 0 1 s;
          s = lcd_print ''Temp:'' s;
          s = lcd_print_num (sint (calculateAverageTemperature 0)) s;
          s = lcd_print '' Time:'' s;
          s = lcd_print_num (sint (inputTime s)) s
      in
      if sint (calculateAverageTemperature 1) < sint (inputTemperature s) then
        (let s = turnFanClockwise s in
         if 30 \<le> sint (inputTemperature s - scast (calculateAverageTemperature 2)) then
           activateHeatingElements 3 s
         else if 20 \<le> sint (inputTemperature s - scast (calculateAverageTemperature 3)) then
           activateHeatingElements 2 s
         else
           activateHeatingElements 1 s)
      else if sint (inputTemperature s + 5) < sint (calculateAverageTemperature 2) then
        (let s = turnOffFan s;
             s = s\<lparr>ovenState := COOLING\<rparr>;
             s = lcd_clear s
         in s)
      else
        (let s = s\<lparr>ovenState := BAKING\<rparr>;
             s = lcd_clear s
         in s))"

definition performCooling :: "(nat \<Rightarrow> 16 word) \<Rightarrow> oven \<Rightarrow> oven" where
  "performCooling calculateAverageTemperature s =
     (let s = lcd_setCursor 0 0 s;
          s = lcd_print ''COOLING'' s;
          s = lcd_setCursor 0 1 s;
          s = lcd_print ''Temp:'' s;
          s = lcd_print_num (sint (calculateAverageTemperature 0)) s;
          s = lcd_print '' Time:'' s;
          s = lcd_print_num (sint (inputTime s)) s
      in
      if sint (inputTemperature s + 5) < sint (calculateAverageTemperature 1) then
        (let s = turnFanAntiClockwise s;
             s = activateHeatingElements 0 s
         in s)
      else if sint (calculateAverageTemperature 2) < sint (inputTemperature s) then
        (let s = turnOffFan s;
             s = s\<lparr>ovenState := HEATING\<rparr>;
             s = lcd_clear s
         in s)
      else
        (let s = s\<lparr>ovenState := BAKING\<rparr>;
             s = lcd_clear s
         in s))"

definition performBaking :: "(nat \<Rightarrow> 16 word) \<Rightarrow> oven \<Rightarrow> oven" where
  "performBaking calculateAverageTemperature s =
     (let s = lcd_setCursor 0 0 s;
          s = lcd_print ''BAKING'' s;
          s = lcd_setCursor 0 1 s;
          s = lcd_print ''Temp:'' s;
          s = lcd_print_num (sint (calculateAverageTemperature 0)) s;
          s = lcd_print '' Time:'' s;
          s = lcd_print_num (sint (inputTime s)) s;
          s = turnOffFan s;
          s = activateHeatingElements 0 s
      in
      if sint (inputTemperature s + 5) < sint (calculateAverageTemperature 1) then
        (let s = s\<lparr>ovenState := COOLING\<rparr>;
             s = lcd_clear s
         in s)
      else if sint (calculateAverageTemperature 2) < sint (inputTemperature s) then
        (let s = s\<lparr>ovenState := HEATING\<rparr>;
             s = lcd_clear s
         in s)
      else s)"

text \<open>The alarm: \<open>for (char i = 0; i < 5; i++)\<close>, one buzzer pulse per pass.\<close>

function alarm_loop :: "8 word \<Rightarrow> oven \<Rightarrow> oven" where
  "alarm_loop i s =
     (if sint i < 5 then
        (let s = digitalWrite 26 HIGH s;
             s = delay 300 s;
             s = digitalWrite 26 LOW s;
             s = delay 300 s
         in alarm_loop (i + 1) s)
      else s)"
  by pat_completeness auto
termination
proof (relation "measure (\<lambda>(i, s). nat (5 - sint i))")
  show "wf (measure (\<lambda>(i, s). nat (5 - sint i)))"
    by simp
next
  fix i :: "8 word" and s x xa xb xc :: oven
  assume lt: "sint i < 5"
  have lo: "- 128 \<le> sint i"
    using sint_ge [of i] by simp
  have "sint (i + 1) = signed_take_bit 7 (sint i + 1)"
    by (simp add: sint_word_ariths)
  also have "\<dots> = sint i + 1"
    using lt lo by (intro signed_take_bit_int_eq_self) simp_all
  finally show "((i + 1, xc), (i, s)) \<in> measure (\<lambda>(i, s). nat (5 - sint i))"
    using lt by simp
qed

definition performVentilation :: "(nat \<Rightarrow> 16 word) \<Rightarrow> oven \<Rightarrow> oven" where
  "performVentilation calculateAverageTemperature s =
     (let s = lcd_setCursor 0 0 s;
          s = lcd_print ''VENTILATION'' s;
          s = lcd_setCursor 0 1 s;
          s = lcd_print ''Temp:'' s;
          s = lcd_print_num (sint (calculateAverageTemperature 0)) s;
          s = lcd_print '' Time:'' s;
          s = lcd_print_num (sint (inputTime s)) s
      in
      if 30 \<le> sint (calculateAverageTemperature 1) then
        (let s = turnFanAntiClockwise s;
             s = activateHeatingElements 0 s
         in s)
      else if sint (calculateAverageTemperature 2) < 30 then
        (let s = alarm_loop 0 s;
             s = s\<lparr>ovenState := END_OF_BAKING\<rparr>;
             s = lcd_clear s
         in s)
      else s)"

definition performEndOfBaking :: "cycle_env \<Rightarrow> oven \<Rightarrow> oven" where
  "performEndOfBaking e s =
     (let s = turnOffFan s;
          s = activateHeatingElements 0 s;
          s = lcd_setCursor 0 0 s;
          s = lcd_print ''END_OF_BAKING'' s;
          s = lcd_setCursor 0 1 s;
          s = lcd_print ''Temp:'' s;
          s = lcd_print_num (sint (temp e 0)) s;
          s = lcd_print '' Time:'' s;
          s = lcd_print_num (sint (inputTime s)) s;
          customKey = key e
      in
      if customKey \<noteq> CHR 0x00 then
        if char_val (CHR ''#'') \<le> char_val customKey then
          (let s = lcd_clear s;
               s = lcd_print ''Enter temp: '' s;
               s = s\<lparr>ovenState := INPUT_PHASE\<rparr>
           in s)
        else s
      else s)"

subsection \<open>Start-up and the control cycle\<close>

text \<open>The globals as initialised at program start, before \<open>setup\<close> (here \<open>setup_oven\<close>) runs.\<close>

definition power_on :: oven where
  "power_on =
     \<lparr>ovenState = INPUT_PHASE, inputString = '''', inputTemperature = 0, inputTime = 0,
      tempOrTime = 0, startTime1 = 0, startTime2 = 0, elapsedTime = 0,
      pins = (\<lambda>p. LOW), events = []\<rparr>"

definition setup_oven :: "oven \<Rightarrow> oven" where
  "setup_oven s =
     (let s = pinMode 26 OUTPUT s;
          s = initializeTemperatureSensors s;
          s = initializeHeatingElements s;
          s = initializeFan s;
          s = initializeLCD s
      in s)"

definition loop :: "cycle_env \<Rightarrow> oven \<Rightarrow> oven" where
  "loop e s =
     (let s =
        (if ovenState s = INPUT_PHASE then readInputs e s
         else if ovenState s = HEATING then performHeating (temp e) s
         else if ovenState s = COOLING then performCooling (temp e) s
         else if ovenState s = BAKING then performBaking (temp e) s
         else if ovenState s = VENTILATION then performVentilation (temp e) s
         else if ovenState s = END_OF_BAKING then performEndOfBaking e s
         else s)
      in
      if ovenState s \<noteq> INPUT_PHASE \<and> 0 < sint (inputTime s) then
        (let s = s\<lparr>startTime2 := now_loop e\<rparr> in
         if 1000 \<le> sint (startTime2 s - startTime1 s) then
           (let s = s\<lparr>startTime1 := startTime2 s\<rparr>;
                s = s\<lparr>inputTime := inputTime s - 1\<rparr>
            in
            if inputTime s = 0 then s\<lparr>ovenState := VENTILATION\<rparr> else s)
         else s)
      else s)"

text \<open>A run of the controller: one pass of \<open>loop\<close> per element of the input list.\<close>

fun cycles :: "cycle_env list \<Rightarrow> oven \<Rightarrow> oven" where
  "cycles [] s = s"
| "cycles (e # es) s = cycles es (loop e s)"

subsection \<open>Observations and test inputs\<close>

text \<open>
  The three heating-element lines (pins 52, 50, 48, in the order the elements are
  switched on) and the two fan lines (pins 22, 24): forward is \<open>(HIGH, LOW)\<close>,
  reverse is \<open>(LOW, HIGH)\<close>, off is \<open>(LOW, LOW)\<close>.
\<close>

definition heating_elements :: "oven \<Rightarrow> level \<times> level \<times> level" where
  "heating_elements s = (pins s 52, pins s 50, pins s 48)"

definition fan_lines :: "oven \<Rightarrow> level \<times> level" where
  "fan_lines s = (pins s 22, pins s 24)"

text \<open>A sensor that returns the same reading \<open>T\<close> at every call of a pass.\<close>

definition steady :: "16 word \<Rightarrow> nat \<Rightarrow> 16 word" where
  "steady T k = T"

text \<open>
  One pass of \<open>loop\<close> in which the keypad returns \<open>k\<close>, the sensor is steady at
  \<open>T\<close> and the clock reads \<open>t\<close> milliseconds; and a sequence of key presses, one per
  pass, with a cold sensor and the clock at 0.
\<close>

definition pass :: "char \<Rightarrow> 16 word \<Rightarrow> 32 word \<Rightarrow> cycle_env" where
  "pass k T t = \<lparr>key = k, temp = steady T, now_input = t, now_loop = t\<rparr>"

definition keypresses :: "string \<Rightarrow> cycle_env list" where
  "keypresses ks = map (\<lambda>k. pass k 150 0) ks"

text \<open>
  The two halves of \<open>loop\<close>, named for the proofs: the \<open>switch\<close> over the state and
  the update of the remaining time. Lemma \<open>loop_eq\<close> below shows that \<open>loop\<close> is their
  composition.
\<close>

definition dispatch :: "cycle_env \<Rightarrow> oven \<Rightarrow> oven" where
  "dispatch e s =
     (if ovenState s = INPUT_PHASE then readInputs e s
      else if ovenState s = HEATING then performHeating (temp e) s
      else if ovenState s = COOLING then performCooling (temp e) s
      else if ovenState s = BAKING then performBaking (temp e) s
      else if ovenState s = VENTILATION then performVentilation (temp e) s
      else if ovenState s = END_OF_BAKING then performEndOfBaking e s
      else s)"

definition countdown :: "cycle_env \<Rightarrow> oven \<Rightarrow> oven" where
  "countdown e s =
     (if ovenState s \<noteq> INPUT_PHASE \<and> 0 < sint (inputTime s) then
        if 1000 \<le> sint (now_loop e - startTime1 s) then
          if inputTime s - 1 = 0 then
            s\<lparr>startTime2 := now_loop e, startTime1 := now_loop e,
              inputTime := inputTime s - 1, ovenState := VENTILATION\<rparr>
          else
            s\<lparr>startTime2 := now_loop e, startTime1 := now_loop e,
              inputTime := inputTime s - 1\<rparr>
        else s\<lparr>startTime2 := now_loop e\<rparr>
      else s)"

text \<open>
  Predicates on a run, used to state the invariant of the remaining time. A pass
  confirms a duration when \<open>readInputs\<close> reaches the assignment to \<open>inputTime\<close>: the
  duration phase, the key \<open>#\<close>, a non-empty pending string. \<open>entered_value\<close> is the
  number the user typed, the decimal value of the pending digits as a mathematical
  integer; \<open>digits_only\<close> says that a string holds digit keys only.
  \<open>bounded_entries es s\<close> says that every duration confirmed during the run \<open>es\<close> from
  \<open>s\<close> is, as typed, at most 2147483647, the largest value of a \<open>long\<close>; and
  \<open>active_run es s\<close> that every pass of the run starts in a state other than
  \<open>INPUT_PHASE\<close>.
\<close>

definition confirms_duration :: "cycle_env \<Rightarrow> oven \<Rightarrow> bool" where
  "confirms_duration e s \<longleftrightarrow>
     ovenState s = INPUT_PHASE \<and> tempOrTime s = 1 \<and> key e = CHR ''#'' \<and>
     inputString s \<noteq> ''''"

definition entered_value :: "string \<Rightarrow> int" where
  "entered_value str = foldl (\<lambda>n c. n * 10 + (of_char c - 48)) 0 str"

definition digits_only :: "string \<Rightarrow> bool" where
  "digits_only str \<longleftrightarrow> list_all is_digit_key str"

fun bounded_entries :: "cycle_env list \<Rightarrow> oven \<Rightarrow> bool" where
  "bounded_entries [] s = True"
| "bounded_entries (e # es) s =
     ((confirms_duration e s \<longrightarrow> entered_value (inputString s) \<le> 2147483647) \<and>
      bounded_entries es (loop e s))"

fun active_run :: "cycle_env list \<Rightarrow> oven \<Rightarrow> bool" where
  "active_run [] s = True"
| "active_run (e # es) s = (ovenState s \<noteq> INPUT_PHASE \<and> active_run es (loop e s))"

text \<open>The states entered once the time is up.\<close>

definition timed_out :: "oven \<Rightarrow> bool" where
  "timed_out s \<longleftrightarrow> ovenState s = VENTILATION \<or> ovenState s = END_OF_BAKING"

section \<open>Basic facts\<close>

lemma emit_fields [simp]:
  "ovenState (emit ev s) = ovenState s"
  "inputString (emit ev s) = inputString s"
  "inputTemperature (emit ev s) = inputTemperature s"
  "inputTime (emit ev s) = inputTime s"
  "tempOrTime (emit ev s) = tempOrTime s"
  "startTime1 (emit ev s) = startTime1 s"
  "startTime2 (emit ev s) = startTime2 s"
  "pins (emit ev s) = pins s"
  "events (emit ev s) = events s @ [ev]"
  by (simp_all add: emit_def)

lemma digitalWrite_fields [simp]:
  "ovenState (digitalWrite p v s) = ovenState s"
  "inputString (digitalWrite p v s) = inputString s"
  "inputTemperature (digitalWrite p v s) = inputTemperature s"
  "inputTime (digitalWrite p v s) = inputTime s"
  "tempOrTime (digitalWrite p v s) = tempOrTime s"
  "startTime1 (digitalWrite p v s) = startTime1 s"
  "startTime2 (digitalWrite p v s) = startTime2 s"
  "pins (digitalWrite p v s) = (pins s)(p := v)"
  "events (digitalWrite p v s) = events s @ [DigitalWrite p v]"
  by (simp_all add: digitalWrite_def)

lemmas lcd_defs = pinMode_def delay_def lcd_begin_def lcd_setCursor_def lcd_print_def
  lcd_print_char_def lcd_print_num_def lcd_clear_def

lemmas actuator_defs = activateHeatingElements_def turnFanClockwise_def turnOffFan_def
  turnFanAntiClockwise_def

lemmas handler_defs = performHeating_def performCooling_def performBaking_def
  performVentilation_def performEndOfBaking_def

lemma loop_eq: "loop e s = countdown e (dispatch e s)"
  unfolding loop_def dispatch_def [symmetric] Let_def countdown_def
  by simp

lemma replicate_5: "replicate 5 x = [x, x, x, x, x]"
  by (simp add: numeral_eq_Suc)

text \<open>The alarm loop started at 0 runs its body five times.\<close>

lemma alarm_loop_fields:
  "ovenState (alarm_loop 0 s) = ovenState s"
  "inputString (alarm_loop 0 s) = inputString s"
  "inputTemperature (alarm_loop 0 s) = inputTemperature s"
  "inputTime (alarm_loop 0 s) = inputTime s"
  "tempOrTime (alarm_loop 0 s) = tempOrTime s"
  "startTime1 (alarm_loop 0 s) = startTime1 s"
  "startTime2 (alarm_loop 0 s) = startTime2 s"
  "pins (alarm_loop 0 s) = (pins s)(26 := LOW)"
  "events (alarm_loop 0 s) =
     events s @ concat (replicate 5
       [DigitalWrite 26 HIGH, Delay 300, DigitalWrite 26 LOW, Delay 300])"
  by (simp_all add: Let_def delay_def replicate_5)

text \<open>No state handler writes the remaining time.\<close>

lemma handlers_inputTime:
  "inputTime (performHeating t s) = inputTime s"
  "inputTime (performCooling t s) = inputTime s"
  "inputTime (performBaking t s) = inputTime s"
  "inputTime (performVentilation t s) = inputTime s"
  "inputTime (performEndOfBaking e s) = inputTime s"
  by (simp_all add: handler_defs Let_def lcd_defs actuator_defs alarm_loop_fields
      del: alarm_loop.simps)

lemma dispatch_inputTime:
  "ovenState s \<noteq> INPUT_PHASE \<Longrightarrow> inputTime (dispatch e s) = inputTime s"
  by (simp add: dispatch_def handlers_inputTime)

text \<open>
  Sign extension of the 16-bit reading to \<open>long\<close> keeps its value, and the 32-bit
  difference is the mathematical one as long as it is representable. When the target
  is at most the reading, a 16-bit value, \<open>S + 5\<close> does not overflow.
\<close>

lemma sint_scast_temp: "sint (scast (T :: 16 word) :: 32 word) = sint T"
  by (simp add: sint_up_scast is_up)

lemma deficit_exact:
  fixes S :: "32 word" and T :: "16 word"
  assumes "sint T < sint S" and "sint S - sint T \<le> 2147483647"
  shows "sint (S - scast T) = sint S - sint T"
proof -
  have "sint (S - scast T) = signed_take_bit 31 (sint S - sint T)"
    by (simp add: sint_word_ariths sint_scast_temp)
  also have "\<dots> = sint S - sint T"
    using assms by (intro signed_take_bit_int_eq_self) simp_all
  finally show ?thesis .
qed

lemma band_exact:
  fixes S :: "32 word" and T :: "16 word"
  assumes "sint S \<le> sint T"
  shows "sint (S + 5) = sint S + 5"
proof -
  have hi: "sint T < 32768"
    using sint_lt [of T] by simp
  have lo: "- 2147483648 \<le> sint S"
    using sint_ge [of S] by simp
  have "sint (S + 5) = signed_take_bit 31 (sint S + 5)"
    by (simp add: sint_word_ariths)
  also have "\<dots> = sint S + 5"
    using assms hi lo by (intro signed_take_bit_int_eq_self) simp_all
  finally show ?thesis .
qed

text \<open>The terminator key is not a digit key.\<close>

lemma hash_not_digit: "\<not> is_digit_key (CHR ''#'')"
  by (simp add: is_digit_key_def char_val_def)

section \<open>The claims\<close>

text \<open>
  C1 (as amended). In the Heating state, when the sampled temperature \<open>T\<close> is strictly
  below the target \<open>S\<close> and the deficit \<open>d = S - T\<close> is at most 2147483647 (it fits
  the signed 32-bit \<open>long\<close> in which the code computes it), the handler drives the fan
  forward and activates 3 elements if \<open>d \<ge> 30\<close>, else 2 elements if \<open>d \<ge> 20\<close>,
  else 1 element; the state stays as it was.
\<close>

theorem heating_power_by_deficit:
  assumes "sint T < sint (inputTemperature s)"
    and "sint (inputTemperature s) - sint T \<le> 2147483647"
  shows "fan_lines (performHeating (steady T) s) = (HIGH, LOW) \<and>
         heating_elements (performHeating (steady T) s) =
           (if 30 \<le> sint (inputTemperature s) - sint T then (HIGH, HIGH, HIGH)
            else if 20 \<le> sint (inputTemperature s) - sint T then (HIGH, HIGH, LOW)
            else (HIGH, LOW, LOW)) \<and>
         ovenState (performHeating (steady T) s) = ovenState s"
  using assms deficit_exact [OF assms]
  by (simp add: performHeating_def Let_def lcd_defs actuator_defs steady_def
      fan_lines_def heating_elements_def)

text \<open>
  Witness: after the keys \<open>180#600#\<close>, a reading of 150 gives deficit 30 and full
  power (scenario 1 of the specification).
\<close>

theorem heating_power_by_deficit_witness:
  "sint (150 :: 16 word)
     < sint (inputTemperature (cycles (keypresses ''180#600#'') (setup_oven power_on))) \<and>
   sint (inputTemperature (cycles (keypresses ''180#600#'') (setup_oven power_on)))
     - sint (150 :: 16 word) \<le> 2147483647 \<and>
   fan_lines (performHeating (steady 150)
     (cycles (keypresses ''180#600#'') (setup_oven power_on))) = (HIGH, LOW) \<and>
   heating_elements (performHeating (steady 150)
     (cycles (keypresses ''180#600#'') (setup_oven power_on))) = (HIGH, HIGH, HIGH)"
proof -
  have S: "sint (inputTemperature (cycles (keypresses ''180#600#'') (setup_oven power_on)))
      = 180"
    by code_simp
  have h1: "sint (150 :: 16 word)
      < sint (inputTemperature (cycles (keypresses ''180#600#'') (setup_oven power_on)))"
    by (simp add: S)
  have h2: "sint (inputTemperature (cycles (keypresses ''180#600#'') (setup_oven power_on)))
      - sint (150 :: 16 word) \<le> 2147483647"
    by (simp add: S)
  show ?thesis
    using heating_power_by_deficit [OF h1 h2] h1 h2 by (simp add: S)
qed

text \<open>
  Counterexample to C1 as stated (every integer pair): with the target 2147483647
  entered on the keypad and a reading of -10 (what \<open>calculateAverageTemperature\<close>
  returns when the three analog channels read 0), the deficit 2147483657 is at least
  30, but the 32-bit subtraction wraps to a negative value and a single element is
  switched on.
\<close>

theorem heating_power_counterexample:
  "sint (- 10 :: 16 word)
     < sint (inputTemperature (cycles (keypresses ''2147483647#60#'') (setup_oven power_on))) \<and>
   30 \<le> sint (inputTemperature (cycles (keypresses ''2147483647#60#'') (setup_oven power_on)))
     - sint (- 10 :: 16 word) \<and>
   heating_elements (performHeating (steady (- 10))
     (cycles (keypresses ''2147483647#60#'') (setup_oven power_on))) = (HIGH, LOW, LOW)"
  by code_simp

text \<open>
  C2. In every control cycle that starts in a state other than \<open>INPUT_PHASE\<close>, in which
  the remaining time is decremented and reaches exactly 0, the state after the cycle is
  \<open>VENTILATION\<close>, whichever state was active.
\<close>

theorem countdown_zero_forces_venting:
  assumes "ovenState s \<noteq> INPUT_PHASE"
    and "inputTime (loop e s) = inputTime s - 1"
    and "inputTime (loop e s) = 0"
  shows "ovenState (loop e s) = VENTILATION"
  using assms(2,3) dispatch_inputTime [OF assms(1), of e]
  by (simp add: loop_eq countdown_def split: if_splits)

text \<open>
  Witness: scenario 4 of the specification. After the keys \<open>180#1#\<close> and a pass that
  reaches the holding band, the oven is in \<open>BAKING\<close> with one second left; the pass
  at clock 1000 decrements the time to 0 and the state becomes \<open>VENTILATION\<close>.
\<close>

theorem countdown_zero_forces_venting_witness:
  "ovenState (cycles (keypresses ''180#1#'' @ [pass (CHR 0x00) 182 500]) (setup_oven power_on))
     \<noteq> INPUT_PHASE \<and>
   inputTime (loop (pass (CHR 0x00) 182 1000)
       (cycles (keypresses ''180#1#'' @ [pass (CHR 0x00) 182 500]) (setup_oven power_on)))
     = inputTime
       (cycles (keypresses ''180#1#'' @ [pass (CHR 0x00) 182 500]) (setup_oven power_on)) - 1 \<and>
   inputTime (loop (pass (CHR 0x00) 182 1000)
       (cycles (keypresses ''180#1#'' @ [pass (CHR 0x00) 182 500]) (setup_oven power_on)))
     = 0 \<and>
   ovenState (cycles (keypresses ''180#1#'' @ [pass (CHR 0x00) 182 500]) (setup_oven power_on))
     = BAKING \<and>
   ovenState (loop (pass (CHR 0x00) 182 1000)
       (cycles (keypresses ''180#1#'' @ [pass (CHR 0x00) 182 500]) (setup_oven power_on)))
     = VENTILATION"
proof -
  let ?s = "cycles (keypresses ''180#1#'' @ [pass (CHR 0x00) 182 500]) (setup_oven power_on)"
  let ?e = "pass (CHR 0x00) 182 1000"
  have h1: "ovenState ?s \<noteq> INPUT_PHASE" by code_simp
  have h2: "inputTime (loop ?e ?s) = inputTime ?s - 1" by code_simp
  have h3: "inputTime (loop ?e ?s) = 0" by code_simp
  have h4: "ovenState ?s = BAKING" by code_simp
  show ?thesis
    using countdown_zero_forces_venting [OF h1 h2 h3] h1 h2 h3 h4 by simp
qed

text \<open>
  With no time left, the handlers of the three regulating states only move among
  \<open>HEATING\<close>, \<open>COOLING\<close> and \<open>BAKING\<close>, and the timer block is skipped.
\<close>

lemma handlers_stay_active:
  "ovenState (performHeating t s) \<in> {ovenState s, COOLING, BAKING}"
  "ovenState (performCooling t s) \<in> {ovenState s, HEATING, BAKING}"
  "ovenState (performBaking t s) \<in> {ovenState s, COOLING, HEATING}"
  by (simp_all add: handler_defs Let_def lcd_defs actuator_defs)

lemma zero_time_stays:
  assumes "inputTime s = 0" and "ovenState s \<in> {HEATING, COOLING, BAKING}"
  shows "inputTime (loop e s) = 0 \<and> ovenState (loop e s) \<in> {HEATING, COOLING, BAKING}"
proof -
  have a: "ovenState s \<noteq> INPUT_PHASE"
    using assms(2) by (auto simp: oven_states)
  have t: "inputTime (dispatch e s) = 0"
    using dispatch_inputTime [OF a, of e] assms(1) by simp
  have d: "ovenState (dispatch e s) \<in> {HEATING, COOLING, BAKING}"
    using assms(2) handlers_stay_active [of "temp e" s]
    by (auto simp: dispatch_def oven_states)
  show ?thesis
    using t d by (simp add: loop_eq countdown_def)
qed

lemma zero_time_run:
  "inputTime s = 0 \<Longrightarrow> ovenState s \<in> {HEATING, COOLING, BAKING} \<Longrightarrow>
   inputTime (cycles es s) = 0 \<and> ovenState (cycles es s) \<in> {HEATING, COOLING, BAKING}"
proof (induction es arbitrary: s)
  case Nil
  then show ?case by simp
next
  case (Cons e es)
  from zero_time_stays [OF Cons.prems, of e] Cons.IH [of "loop e s"]
  show ?case by simp
qed

text \<open>
  C3 (the code departs from the claim). A duration of zero is accepted without
  validation and the oven enters \<open>HEATING\<close>, but it never reaches \<open>VENTILATION\<close>:
  the test for zero sits inside the guard \<open>inputTime > 0\<close>, so the timer block is
  skipped in every later pass. After the keys \<open>180#0#\<close> the state is \<open>HEATING\<close> with
  remaining time 0, and no sequence \<open>es\<close> of further passes leads to \<open>VENTILATION\<close>.
\<close>

theorem zero_duration_never_vents:
  "ovenState (cycles (keypresses ''180#0#'') (setup_oven power_on)) = HEATING \<and>
   inputTime (cycles (keypresses ''180#0#'') (setup_oven power_on)) = 0 \<and>
   ovenState (cycles es (cycles (keypresses ''180#0#'') (setup_oven power_on)))
     \<noteq> VENTILATION"
proof -
  let ?s = "cycles (keypresses ''180#0#'') (setup_oven power_on)"
  have h1: "ovenState ?s = HEATING" by code_simp
  have h2: "inputTime ?s = 0" by code_simp
  have "ovenState (cycles es ?s) \<in> {HEATING, COOLING, BAKING}"
    using zero_time_run [OF h2, of es] h1 by simp
  then have "ovenState (cycles es ?s) \<noteq> VENTILATION"
    by (auto simp: oven_states)
  with h1 h2 show ?thesis by simp
qed

text \<open>
  C4 (as amended). In the Heating state, for every target \<open>S\<close> and steady reading
  \<open>T > S + 5\<close>, the handler stops the fan and moves to \<open>COOLING\<close>; the following
  pass, the \<open>COOLING\<close> handler at the same reading, starts the fan in reverse and sets
  the heating power to 0, after which all three heating-element lines are \<open>LOW\<close>.
  The \<open>HEATING\<close> handler itself does not write the heating-element lines in this
  branch (no branch that changes the state calls \<open>activateHeatingElements\<close>): right
  after it they have the levels they had before.
\<close>

theorem heating_overshoot:
  assumes "sint (inputTemperature s) + 5 < sint T"
  shows "ovenState (performHeating (steady T) s) = COOLING \<and>
         fan_lines (performHeating (steady T) s) = (LOW, LOW) \<and>
         heating_elements (performHeating (steady T) s) = heating_elements s \<and>
         ovenState (performCooling (steady T) (performHeating (steady T) s)) = COOLING \<and>
         fan_lines (performCooling (steady T) (performHeating (steady T) s)) = (LOW, HIGH) \<and>
         heating_elements (performCooling (steady T) (performHeating (steady T) s))
           = (LOW, LOW, LOW)"
proof -
  have le: "sint (inputTemperature s) \<le> sint T"
    using assms by simp
  have first: "ovenState (performHeating (steady T) s) = COOLING \<and>
      fan_lines (performHeating (steady T) s) = (LOW, LOW) \<and>
      heating_elements (performHeating (steady T) s) = heating_elements s \<and>
      inputTemperature (performHeating (steady T) s) = inputTemperature s"
    using band_exact [OF le] assms
    by (simp add: performHeating_def Let_def lcd_defs actuator_defs steady_def
        fan_lines_def heating_elements_def)
  have second: "ovenState (performCooling (steady T) s') = COOLING \<and>
      fan_lines (performCooling (steady T) s') = (LOW, HIGH) \<and>
      heating_elements (performCooling (steady T) s') = (LOW, LOW, LOW)"
    if "ovenState s' = COOLING" and "inputTemperature s' = inputTemperature s" for s'
    using band_exact [OF le] assms that
    by (simp add: performCooling_def Let_def lcd_defs actuator_defs steady_def
        fan_lines_def heating_elements_def)
  from first second [of "performHeating (steady T) s"] show ?thesis
    by simp
qed

text \<open>
  Witness: scenario 2 of the specification, target 180 and reading 186, in the state
  reached after the keys \<open>180#600#\<close> and one pass of heating at 150 degrees.
\<close>

theorem heating_overshoot_witness:
  "sint (inputTemperature (cycles (keypresses ''180#600#'' @ [pass (CHR 0x00) 150 100])
       (setup_oven power_on))) + 5 < sint (186 :: 16 word) \<and>
   ovenState (performHeating (steady 186)
     (cycles (keypresses ''180#600#'' @ [pass (CHR 0x00) 150 100]) (setup_oven power_on)))
     = COOLING \<and>
   fan_lines (performHeating (steady 186)
     (cycles (keypresses ''180#600#'' @ [pass (CHR 0x00) 150 100]) (setup_oven power_on)))
     = (LOW, LOW) \<and>
   fan_lines (performCooling (steady 186) (performHeating (steady 186)
     (cycles (keypresses ''180#600#'' @ [pass (CHR 0x00) 150 100]) (setup_oven power_on))))
     = (LOW, HIGH) \<and>
   heating_elements (performCooling (steady 186) (performHeating (steady 186)
     (cycles (keypresses ''180#600#'' @ [pass (CHR 0x00) 150 100]) (setup_oven power_on))))
     = (LOW, LOW, LOW)"
proof -
  let ?s = "cycles (keypresses ''180#600#'' @ [pass (CHR 0x00) 150 100]) (setup_oven power_on)"
  have S: "sint (inputTemperature ?s) = 180" by code_simp
  have h: "sint (inputTemperature ?s) + 5 < sint (186 :: 16 word)" by (simp add: S)
  show ?thesis
    using heating_overshoot [OF h] h by simp
qed

text \<open>
  Counterexample to C4 as stated (all three heating-element lines \<open>LOW\<close> after the
  pass): after the keys \<open>180#600#\<close>, a pass at 150 degrees switches all three elements
  on, and the following pass at 186 degrees leaves the oven in \<open>COOLING\<close> with the fan
  off and all three elements still on.
\<close>

theorem overheat_leaves_elements_on:
  "ovenState (cycles (keypresses ''180#600#'' @ [pass (CHR 0x00) 150 100])
      (setup_oven power_on)) = HEATING \<and>
   heating_elements (cycles (keypresses ''180#600#'' @ [pass (CHR 0x00) 150 100])
      (setup_oven power_on)) = (HIGH, HIGH, HIGH) \<and>
   ovenState (cycles (keypresses ''180#600#'' @ [pass (CHR 0x00) 150 100, pass (CHR 0x00) 186 200])
      (setup_oven power_on)) = COOLING \<and>
   fan_lines (cycles (keypresses ''180#600#'' @ [pass (CHR 0x00) 150 100, pass (CHR 0x00) 186 200])
      (setup_oven power_on)) = (LOW, LOW) \<and>
   heating_elements (cycles (keypresses ''180#600#'' @ [pass (CHR 0x00) 150 100, pass (CHR 0x00) 186 200])
      (setup_oven power_on)) = (HIGH, HIGH, HIGH)"
  by code_simp

text \<open>
  \<open>VENTILATION\<close> and \<open>END_OF_BAKING\<close> are entered only with no time left: in every state
  reachable from start-up that is in one of them, the remaining time is 0, so a pass of
  \<open>loop\<close> in \<open>VENTILATION\<close> is the handler alone.
\<close>

lemma handlers_leave:
  "ovenState (performVentilation t s) \<in> {ovenState s, END_OF_BAKING}"
  "ovenState (performEndOfBaking e s) \<in> {ovenState s, INPUT_PHASE}"
  "ovenState (readInputs e s) \<in> {ovenState s, HEATING}"
  by (simp_all add: handler_defs readInputs_def Let_def lcd_defs actuator_defs
      alarm_loop_fields del: alarm_loop.simps)

lemma dispatch_timed_out_state:
  assumes "timed_out (dispatch e s)"
  shows "timed_out s"
proof -
  consider (input) "ovenState s = INPUT_PHASE" | (heat) "ovenState s = HEATING"
    | (cool) "ovenState s = COOLING" | (bake) "ovenState s = BAKING"
    | (vent) "ovenState s = VENTILATION" | (fin) "ovenState s = END_OF_BAKING"
    | (other) "ovenState s \<notin> {INPUT_PHASE, HEATING, COOLING, BAKING, VENTILATION, END_OF_BAKING}"
    by blast
  then show ?thesis
  proof cases
    case input
    then have "dispatch e s = readInputs e s"
      by (simp add: dispatch_def)
    with assms handlers_leave(3) [of e s] input show ?thesis
      by (auto simp: timed_out_def oven_states)
  next
    case heat
    then have "dispatch e s = performHeating (temp e) s"
      by (simp add: dispatch_def oven_states)
    with assms handlers_stay_active(1) [of "temp e" s] heat show ?thesis
      by (auto simp: timed_out_def oven_states)
  next
    case cool
    then have "dispatch e s = performCooling (temp e) s"
      by (simp add: dispatch_def oven_states)
    with assms handlers_stay_active(2) [of "temp e" s] cool show ?thesis
      by (auto simp: timed_out_def oven_states)
  next
    case bake
    then have "dispatch e s = performBaking (temp e) s"
      by (simp add: dispatch_def oven_states)
    with assms handlers_stay_active(3) [of "temp e" s] bake show ?thesis
      by (auto simp: timed_out_def oven_states)
  next
    case vent
    then show ?thesis by (simp add: timed_out_def)
  next
    case fin
    then show ?thesis by (simp add: timed_out_def)
  next
    case other
    then have "dispatch e s = s"
      by (simp add: dispatch_def)
    with assms show ?thesis by simp
  qed
qed

lemma dispatch_timed_out:
  assumes "timed_out s \<longrightarrow> inputTime s = 0"
  shows "timed_out (dispatch e s) \<longrightarrow> inputTime (dispatch e s) = 0"
proof
  assume t: "timed_out (dispatch e s)"
  then have ts: "timed_out s"
    by (rule dispatch_timed_out_state)
  then have "ovenState s \<noteq> INPUT_PHASE"
    by (auto simp: timed_out_def oven_states)
  from dispatch_inputTime [OF this, of e] assms ts
  show "inputTime (dispatch e s) = 0" by simp
qed

lemma countdown_timed_out:
  assumes "timed_out s \<longrightarrow> inputTime s = 0"
  shows "timed_out (countdown e s) \<longrightarrow> inputTime (countdown e s) = 0"
proof (cases "ovenState s \<noteq> INPUT_PHASE \<and> 0 < sint (inputTime s)")
  case True
  then have "\<not> timed_out s"
    using assms by auto
  with True show ?thesis
    by (simp add: countdown_def timed_out_def oven_states)
next
  case False
  then have "countdown e s = s"
    unfolding countdown_def by (simp only: if_False)
  with assms show ?thesis by simp
qed

lemma run_timed_out:
  "(timed_out s \<longrightarrow> inputTime s = 0) \<Longrightarrow>
   timed_out (cycles es s) \<longrightarrow> inputTime (cycles es s) = 0"
proof (induction es arbitrary: s)
  case Nil
  then show ?case by simp
next
  case (Cons e es)
  have "timed_out (loop e s) \<longrightarrow> inputTime (loop e s) = 0"
    unfolding loop_eq
    by (intro countdown_timed_out dispatch_timed_out Cons.prems)
  from Cons.IH [OF this] show ?case by simp
qed

lemma reachable_timed_out:
  assumes "timed_out (cycles es (setup_oven power_on))"
  shows "inputTime (cycles es (setup_oven power_on)) = 0"
proof -
  have "\<not> timed_out (setup_oven power_on)"
    by code_simp
  then show ?thesis
    using run_timed_out [of "setup_oven power_on" es] assms by simp
qed

lemma loop_in_ventilation:
  assumes "ovenState s = VENTILATION" and "inputTime s = 0"
  shows "loop e s = performVentilation (temp e) s"
proof -
  have d: "dispatch e s = performVentilation (temp e) s"
    using assms(1) by (simp add: dispatch_def oven_states)
  show ?thesis
    using assms(2) by (simp add: loop_eq d countdown_def handlers_inputTime)
qed

text \<open>
  C5. In the \<open>VENTILATION\<close> state, for every steady reading \<open>T\<close>: if \<open>T \<ge> 30\<close> the
  handler drives the fan in reverse, switches all heating elements off and stays in
  \<open>VENTILATION\<close>; if \<open>T < 30\<close> it shows the status, emits exactly five buzzer pulses
  (pin 26 high for 300 ms, low for 300 ms), clears the display and moves to
  \<open>END_OF_BAKING\<close>. In a state reached from start-up by any run \<open>es\<close>, the whole pass
  of \<open>loop\<close> is this handler: the timer block does nothing.
\<close>

theorem ventilation_cycle:
  assumes "ovenState s = VENTILATION"
  shows "(30 \<le> sint T \<longrightarrow>
           fan_lines (performVentilation (steady T) s) = (LOW, HIGH) \<and>
           heating_elements (performVentilation (steady T) s) = (LOW, LOW, LOW) \<and>
           ovenState (performVentilation (steady T) s) = VENTILATION) \<and>
         (sint T < 30 \<longrightarrow>
           events (performVentilation (steady T) s) =
             events s @
             [LcdSetCursor 0 0, LcdPrint ''VENTILATION'', LcdSetCursor 0 1, LcdPrint ''Temp:'',
              LcdPrintNum (sint T), LcdPrint '' Time:'', LcdPrintNum (sint (inputTime s))] @
             concat (replicate 5
               [DigitalWrite 26 HIGH, Delay 300, DigitalWrite 26 LOW, Delay 300]) @
             [LcdClear] \<and>
           ovenState (performVentilation (steady T) s) = END_OF_BAKING) \<and>
         (s = cycles es (setup_oven power_on) \<longrightarrow>
           loop e s = performVentilation (temp e) s)"
proof -
  have handler:
    "(30 \<le> sint T \<longrightarrow>
       fan_lines (performVentilation (steady T) s) = (LOW, HIGH) \<and>
       heating_elements (performVentilation (steady T) s) = (LOW, LOW, LOW) \<and>
       ovenState (performVentilation (steady T) s) = VENTILATION) \<and>
     (sint T < 30 \<longrightarrow>
       events (performVentilation (steady T) s) =
         events s @
         [LcdSetCursor 0 0, LcdPrint ''VENTILATION'', LcdSetCursor 0 1, LcdPrint ''Temp:'',
          LcdPrintNum (sint T), LcdPrint '' Time:'', LcdPrintNum (sint (inputTime s))] @
         concat (replicate 5
           [DigitalWrite 26 HIGH, Delay 300, DigitalWrite 26 LOW, Delay 300]) @
         [LcdClear] \<and>
       ovenState (performVentilation (steady T) s) = END_OF_BAKING)"
    using assms
    by (simp add: performVentilation_def Let_def lcd_defs actuator_defs steady_def
        fan_lines_def heating_elements_def alarm_loop_fields del: alarm_loop.simps)
  have pass: "loop e s = performVentilation (temp e) s"
    if "s = cycles es (setup_oven power_on)"
  proof -
    have "timed_out s"
      using assms by (simp add: timed_out_def)
    then have "inputTime s = 0"
      unfolding that by (rule reachable_timed_out)
    with assms show ?thesis
      by (rule loop_in_ventilation)
  qed
  from handler pass show ?thesis
    by blast
qed

text \<open>
  Witness: the \<open>VENTILATION\<close> state reached after the keys \<open>180#1#\<close> and one second,
  with readings 40 (fan in reverse) and 25 (scenario 5: alarm, then \<open>END_OF_BAKING\<close>).
\<close>

theorem ventilation_cycle_witness:
  "ovenState (cycles (keypresses ''180#1#'' @ [pass (CHR 0x00) 150 1000]) (setup_oven power_on))
     = VENTILATION \<and>
   30 \<le> sint (40 :: 16 word) \<and>
   fan_lines (performVentilation (steady 40)
     (cycles (keypresses ''180#1#'' @ [pass (CHR 0x00) 150 1000]) (setup_oven power_on)))
     = (LOW, HIGH) \<and>
   heating_elements (performVentilation (steady 40)
     (cycles (keypresses ''180#1#'' @ [pass (CHR 0x00) 150 1000]) (setup_oven power_on)))
     = (LOW, LOW, LOW) \<and>
   ovenState (performVentilation (steady 40)
     (cycles (keypresses ''180#1#'' @ [pass (CHR 0x00) 150 1000]) (setup_oven power_on)))
     = VENTILATION \<and>
   sint (25 :: 16 word) < 30 \<and>
   ovenState (performVentilation (steady 25)
     (cycles (keypresses ''180#1#'' @ [pass (CHR 0x00) 150 1000]) (setup_oven power_on)))
     = END_OF_BAKING \<and>
   ovenState (loop (pass (CHR 0x00) 25 1100)
     (cycles (keypresses ''180#1#'' @ [pass (CHR 0x00) 150 1000]) (setup_oven power_on)))
     = END_OF_BAKING"
proof -
  let ?es = "keypresses ''180#1#'' @ [pass (CHR 0x00) 150 1000]"
  let ?s = "cycles ?es (setup_oven power_on)"
  have h: "ovenState ?s = VENTILATION" by code_simp
  have t: "temp (pass (CHR 0x00) 25 1100) = steady 25" by (simp add: pass_def)
  show ?thesis
    using ventilation_cycle [OF h, of 40 ?es "pass (CHR 0x00) 25 1100"]
      ventilation_cycle [OF h, of 25 ?es "pass (CHR 0x00) 25 1100"] h t
    by simp
qed

text \<open>
  Within the band, a call of \<open>performBaking\<close> changes the fan and heating lines and
  the event log only.
\<close>

lemma baking_step:
  assumes "ovenState s = BAKING"
    and "sint (inputTemperature s) \<le> sint T"
    and "sint T \<le> sint (inputTemperature s) + 5"
  shows "performBaking (steady T) s =
     s\<lparr>pins := (pins s)(22 := LOW, 24 := LOW, 52 := LOW, 50 := LOW, 48 := LOW),
       events := events s @
         [LcdSetCursor 0 0, LcdPrint ''BAKING'', LcdSetCursor 0 1, LcdPrint ''Temp:'',
          LcdPrintNum (sint T), LcdPrint '' Time:'', LcdPrintNum (sint (inputTime s)),
          DigitalWrite 22 LOW, DigitalWrite 24 LOW,
          DigitalWrite 52 LOW, DigitalWrite 50 LOW, DigitalWrite 48 LOW]\<rparr>"
  using assms band_exact [OF assms(2)]
  by (simp add: performBaking_def Let_def lcd_defs actuator_defs steady_def emit_def
      digitalWrite_def)

lemma baking_iterate:
  assumes "ovenState s = BAKING"
    and "sint (inputTemperature s) \<le> sint T"
    and "sint T \<le> sint (inputTemperature s) + 5"
  shows "ovenState ((performBaking (steady T) ^^ n) s) = BAKING \<and>
         inputTemperature ((performBaking (steady T) ^^ n) s) = inputTemperature s \<and>
         inputTime ((performBaking (steady T) ^^ n) s) = inputTime s"
proof (induction n)
  case 0
  show ?case using assms(1) by simp
next
  case (Suc n)
  let ?sn = "(performBaking (steady T) ^^ n) s"
  have "performBaking (steady T) ?sn = ?sn\<lparr>pins := (pins ?sn)(22 := LOW, 24 := LOW, 52 := LOW, 50 := LOW, 48 := LOW),
       events := events ?sn @
         [LcdSetCursor 0 0, LcdPrint ''BAKING'', LcdSetCursor 0 1, LcdPrint ''Temp:'',
          LcdPrintNum (sint T), LcdPrint '' Time:'', LcdPrintNum (sint (inputTime ?sn)),
          DigitalWrite 22 LOW, DigitalWrite 24 LOW,
          DigitalWrite 52 LOW, DigitalWrite 50 LOW, DigitalWrite 48 LOW]\<rparr>"
    using Suc assms(2,3) by (intro baking_step) simp_all
  then show ?case using Suc by simp
qed

text \<open>
  C6. With a steady reading \<open>T\<close> in the band \<open>[S, S + 5]\<close>, repeated calls of the
  \<open>BAKING\<close> handler are idempotent: after any number \<open>n\<close> of calls the state is still
  \<open>BAKING\<close>, the next call issues the same commands as every other (the status display,
  fan off, heating power 0), and the pin levels after one call are those after two.
\<close>

theorem baking_idempotent:
  assumes "ovenState s = BAKING"
    and "sint (inputTemperature s) \<le> sint T"
    and "sint T \<le> sint (inputTemperature s) + 5"
  shows "ovenState ((performBaking (steady T) ^^ n) s) = BAKING \<and>
         events ((performBaking (steady T) ^^ Suc n) s) =
           events ((performBaking (steady T) ^^ n) s) @
             [LcdSetCursor 0 0, LcdPrint ''BAKING'', LcdSetCursor 0 1, LcdPrint ''Temp:'',
              LcdPrintNum (sint T), LcdPrint '' Time:'', LcdPrintNum (sint (inputTime s)),
              DigitalWrite 22 LOW, DigitalWrite 24 LOW,
              DigitalWrite 52 LOW, DigitalWrite 50 LOW, DigitalWrite 48 LOW] \<and>
         fan_lines ((performBaking (steady T) ^^ Suc n) s) = (LOW, LOW) \<and>
         heating_elements ((performBaking (steady T) ^^ Suc n) s) = (LOW, LOW, LOW) \<and>
         pins ((performBaking (steady T) ^^ Suc (Suc n)) s) =
           pins ((performBaking (steady T) ^^ Suc n) s)"
proof -
  let ?f = "performBaking (steady T)"
  have inv: "ovenState ((?f ^^ k) s) = BAKING \<and>
      inputTemperature ((?f ^^ k) s) = inputTemperature s \<and>
      inputTime ((?f ^^ k) s) = inputTime s" for k
    by (rule baking_iterate [OF assms])
  have step: "?f ((?f ^^ k) s) =
      ((?f ^^ k) s)\<lparr>pins := (pins ((?f ^^ k) s))(22 := LOW, 24 := LOW, 52 := LOW, 50 := LOW, 48 := LOW),
       events := events ((?f ^^ k) s) @
         [LcdSetCursor 0 0, LcdPrint ''BAKING'', LcdSetCursor 0 1, LcdPrint ''Temp:'',
          LcdPrintNum (sint T), LcdPrint '' Time:'', LcdPrintNum (sint (inputTime s)),
          DigitalWrite 22 LOW, DigitalWrite 24 LOW,
          DigitalWrite 52 LOW, DigitalWrite 50 LOW, DigitalWrite 48 LOW]\<rparr>" for k
    using baking_step [of "(?f ^^ k) s" T] inv [of k] assms(2,3) by simp
  have p1: "pins ((?f ^^ Suc k) s) = (pins ((?f ^^ k) s))(22 := LOW, 24 := LOW, 52 := LOW, 50 := LOW, 48 := LOW)" for k
    using step [of k] by simp
  have e1: "events ((?f ^^ Suc k) s) = events ((?f ^^ k) s) @
         [LcdSetCursor 0 0, LcdPrint ''BAKING'', LcdSetCursor 0 1, LcdPrint ''Temp:'',
          LcdPrintNum (sint T), LcdPrint '' Time:'', LcdPrintNum (sint (inputTime s)),
          DigitalWrite 22 LOW, DigitalWrite 24 LOW,
          DigitalWrite 52 LOW, DigitalWrite 50 LOW, DigitalWrite 48 LOW]" for k
    using step [of k] by simp
  have p2: "pins ((?f ^^ Suc (Suc n)) s) = pins ((?f ^^ Suc n) s)"
    unfolding p1 [of "Suc n"] unfolding p1 [of n] by (simp add: fun_eq_iff)
  show ?thesis
    using inv [of n] e1 [of n] p1 [of n] p2
    by (simp add: fan_lines_def heating_elements_def)
qed

text \<open>
  Witness: scenario 3 of the specification, target 180 and reading 182, from the
  \<open>BAKING\<close> state reached after the keys \<open>180#600#\<close> and one pass in the band.
\<close>

theorem baking_idempotent_witness:
  "ovenState (cycles (keypresses ''180#600#'' @ [pass (CHR 0x00) 182 100]) (setup_oven power_on))
     = BAKING \<and>
   sint (inputTemperature
       (cycles (keypresses ''180#600#'' @ [pass (CHR 0x00) 182 100]) (setup_oven power_on)))
     \<le> sint (182 :: 16 word) \<and>
   sint (182 :: 16 word)
     \<le> sint (inputTemperature
       (cycles (keypresses ''180#600#'' @ [pass (CHR 0x00) 182 100]) (setup_oven power_on))) + 5 \<and>
   ovenState ((performBaking (steady 182) ^^ 2)
       (cycles (keypresses ''180#600#'' @ [pass (CHR 0x00) 182 100]) (setup_oven power_on)))
     = BAKING \<and>
   fan_lines ((performBaking (steady 182) ^^ Suc 2)
       (cycles (keypresses ''180#600#'' @ [pass (CHR 0x00) 182 100]) (setup_oven power_on)))
     = (LOW, LOW) \<and>
   heating_elements ((performBaking (steady 182) ^^ Suc 2)
       (cycles (keypresses ''180#600#'' @ [pass (CHR 0x00) 182 100]) (setup_oven power_on)))
     = (LOW, LOW, LOW)"
proof -
  let ?s = "cycles (keypresses ''180#600#'' @ [pass (CHR 0x00) 182 100]) (setup_oven power_on)"
  have S: "sint (inputTemperature ?s) = 180" by code_simp
  have h1: "ovenState ?s = BAKING" by code_simp
  have h2: "sint (inputTemperature ?s) \<le> sint (182 :: 16 word)" by (simp add: S)
  have h3: "sint (182 :: 16 word) \<le> sint (inputTemperature ?s) + 5" by (simp add: S)
  show ?thesis
    using baking_idempotent [OF h1 h2 h3, of 2] h1 h2 h3 by simp
qed

text \<open>Every key of the keypad is a key event whose code is at least that of \<open>#\<close>.\<close>

lemma keymap_accepted:
  "k \<in> set (concat hexaKeys) \<Longrightarrow> k \<noteq> CHR 0x00 \<and> char_val (CHR ''#'') \<le> char_val k"
  by (auto simp: hexaKeys_def char_val_def)

text \<open>
  C7. In the \<open>END_OF_BAKING\<close> state, a pass in which any of the 16 keys of the keypad
  is read resets the controller to \<open>INPUT_PHASE\<close>: after switching fan and heating off
  and showing the status, it clears the display and prompts for the temperature.
\<close>

theorem finished_any_key_resets:
  assumes "ovenState s = END_OF_BAKING" and "key e \<in> set (concat hexaKeys)"
  shows "ovenState (loop e s) = INPUT_PHASE \<and>
         events (loop e s) =
           events s @
           [DigitalWrite 22 LOW, DigitalWrite 24 LOW,
            DigitalWrite 52 LOW, DigitalWrite 50 LOW, DigitalWrite 48 LOW,
            LcdSetCursor 0 0, LcdPrint ''END_OF_BAKING'', LcdSetCursor 0 1, LcdPrint ''Temp:'',
            LcdPrintNum (sint (temp e 0)), LcdPrint '' Time:'', LcdPrintNum (sint (inputTime s)),
            LcdClear, LcdPrint ''Enter temp: ''] \<and>
         tempOrTime (loop e s) = tempOrTime s"
proof -
  have d: "dispatch e s = performEndOfBaking e s"
    using assms(1) by (simp add: dispatch_def oven_states)
  show ?thesis
    using keymap_accepted [OF assms(2)]
    by (simp add: loop_eq d countdown_def performEndOfBaking_def Let_def lcd_defs
        actuator_defs)
qed

text \<open>
  Witness: the \<open>END_OF_BAKING\<close> state reached after a one-second bake and the alarm,
  acknowledged with the key \<open>*\<close>.
\<close>

theorem finished_any_key_resets_witness:
  "ovenState (cycles (keypresses ''180#1#'' @
       [pass (CHR 0x00) 150 1000, pass (CHR 0x00) 25 1100]) (setup_oven power_on))
     = END_OF_BAKING \<and>
   key (pass (CHR ''*'') 25 5000) \<in> set (concat hexaKeys) \<and>
   ovenState (loop (pass (CHR ''*'') 25 5000)
     (cycles (keypresses ''180#1#'' @
       [pass (CHR 0x00) 150 1000, pass (CHR 0x00) 25 1100]) (setup_oven power_on)))
     = INPUT_PHASE"
proof -
  let ?s = "cycles (keypresses ''180#1#'' @
       [pass (CHR 0x00) 150 1000, pass (CHR 0x00) 25 1100]) (setup_oven power_on)"
  have h1: "ovenState ?s = END_OF_BAKING" by code_simp
  have h2: "key (pass (CHR ''*'') 25 5000) \<in> set (concat hexaKeys)" by code_simp
  show ?thesis
    using finished_any_key_resets [OF h1 h2] h1 h2 by simp
qed

text \<open>
  The remaining time is written in two places only: \<open>readInputs\<close> stores a confirmed
  duration, and the timer block of \<open>loop\<close> subtracts 1 from a positive value.
\<close>

lemma readInputs_inputTime:
  "inputTime (readInputs e s) =
     (if tempOrTime s = 1 \<and> key e = CHR ''#'' \<and> inputString s \<noteq> ''''
      then toInt (inputString s) else inputTime s)"
  by (auto simp: readInputs_def Let_def lcd_defs hash_not_digit)

lemma dispatch_inputTime_input:
  "ovenState s = INPUT_PHASE \<Longrightarrow>
   inputTime (dispatch e s) =
     (if confirms_duration e s then toInt (inputString s) else inputTime s)"
  by (simp add: dispatch_def readInputs_inputTime confirms_duration_def)

lemma sint_decrement:
  fixes x :: "32 word"
  assumes "0 < sint x"
  shows "sint (x - 1) = sint x - 1"
proof -
  have hi: "sint x < 2147483648"
    using sint_lt [of x] by simp
  have "sint (x - 1) = signed_take_bit 31 (sint x - 1)"
    by (simp add: sint_word_ariths)
  also have "\<dots> = sint x - 1"
    using assms hi by (intro signed_take_bit_int_eq_self) simp_all
  finally show ?thesis .
qed

lemma countdown_inputTime:
  "sint (inputTime (countdown e s)) \<le> sint (inputTime s) \<and>
   (0 \<le> sint (inputTime s) \<longrightarrow> 0 \<le> sint (inputTime (countdown e s)))"
  using sint_decrement [of "inputTime s"]
  by (auto simp: countdown_def)

text \<open>
  A string of digit keys is parsed to its typed value modulo \<open>2 ^ 32\<close>; when the typed
  value is at most 2147483647 the stored \<open>long\<close> is that value. Only digit keys are
  ever appended to the pending string.
\<close>

lemma is_digit_key_range:
  assumes "is_digit_key c"
  shows "(48::nat) \<le> of_char c \<and> of_char c \<le> (57::nat)"
proof -
  let ?w = "of_nat (of_char c) :: 8 word"
  have lt: "(of_char c :: nat) < 2 ^ 8"
    by simp
  have s: "48 \<le> sint ?w" "sint ?w \<le> 57"
    using assms by (simp_all add: is_digit_key_def char_val_def)
  have "uint ?w = take_bit 8 (sint ?w)"
    using uint_sint [of ?w] by simp
  also have "\<dots> = sint ?w"
    using s by (intro take_bit_int_eq_self) simp_all
  finally have u: "uint ?w = sint ?w" .
  have "uint ?w = int (take_bit 8 (of_char c :: nat))"
    by (simp add: unsigned_of_nat)
  also have "take_bit 8 (of_char c :: nat) = of_char c"
    using lt by (intro take_bit_nat_eq_self)
  finally have "sint ?w = int (of_char c)"
    using u by simp
  with s show ?thesis
    by simp
qed

lemma toInt_acc_digits:
  "list_all is_digit_key str \<Longrightarrow>
   toInt_acc (word_of_int n) str
     = word_of_int (foldl (\<lambda>n c. n * 10 + (of_char c - 48)) n str)"
proof (induction str arbitrary: n)
  case Nil
  then show ?case by simp
next
  case (Cons c cs)
  then have r: "(48::nat) \<le> of_char c \<and> of_char c \<le> (57::nat)"
    by (simp add: is_digit_key_range)
  then have d: "int (of_char c - 48) = of_char c - 48"
    by (simp add: of_nat_diff of_nat_of_char)
  have "toInt_acc (word_of_int n) (c # cs)
      = toInt_acc (word_of_int n * 10 + of_nat (of_char c - 48)) cs"
    using r by simp
  also have "word_of_int n * 10 + of_nat (of_char c - 48)
      = (word_of_int (n * 10 + (of_char c - 48)) :: 32 word)"
    unfolding d [symmetric] by simp
  also have "toInt_acc (word_of_int (n * 10 + (of_char c - 48))) cs
      = word_of_int (foldl (\<lambda>n c. n * 10 + (of_char c - 48)) (n * 10 + (of_char c - 48)) cs)"
    using Cons.prems by (intro Cons.IH) simp
  finally show ?case by simp
qed

lemma toInt_entered:
  "digits_only str \<Longrightarrow> toInt str = word_of_int (entered_value str)"
  using toInt_acc_digits [of str 0] by (simp add: toInt_def entered_value_def digits_only_def)

lemma entered_value_nonneg:
  "digits_only str \<Longrightarrow> 0 \<le> entered_value str"
proof -
  have "list_all is_digit_key str \<Longrightarrow> 0 \<le> n \<Longrightarrow>
      0 \<le> foldl (\<lambda>n c. n * 10 + (of_char c - 48)) n str" for n :: int
  proof (induction str arbitrary: n)
    case Nil
    then show ?case by simp
  next
    case (Cons c cs)
    then have "(48::nat) \<le> of_char c"
      by (simp add: is_digit_key_range)
    then have "(48::int) \<le> of_char c"
      by (metis of_nat_of_char of_nat_le_iff of_nat_numeral)
    with Cons.prems have "0 \<le> n * 10 + (of_char c - 48)"
      by simp
    with Cons.prems Cons.IH [of "n * 10 + (of_char c - 48)"] show ?case
      by simp
  qed
  then show "digits_only str \<Longrightarrow> 0 \<le> entered_value str"
    by (simp add: digits_only_def entered_value_def)
qed

lemma sint_toInt_entered:
  assumes "digits_only str" and "entered_value str \<le> 2147483647"
  shows "sint (toInt str) = entered_value str"
proof -
  have "sint (toInt str) = signed_take_bit 31 (entered_value str)"
    using toInt_entered [OF assms(1)] by (simp add: sint_sbintrunc')
  also have "\<dots> = entered_value str"
    using assms(2) entered_value_nonneg [OF assms(1)]
    by (intro signed_take_bit_int_eq_self) simp_all
  finally show ?thesis .
qed

lemma handlers_inputString:
  "inputString (performHeating t s) = inputString s"
  "inputString (performCooling t s) = inputString s"
  "inputString (performBaking t s) = inputString s"
  "inputString (performVentilation t s) = inputString s"
  "inputString (performEndOfBaking e s) = inputString s"
  by (simp_all add: handler_defs Let_def lcd_defs actuator_defs alarm_loop_fields
      del: alarm_loop.simps)

lemma readInputs_digits:
  "digits_only (inputString s) \<Longrightarrow> digits_only (inputString (readInputs e s))"
  by (simp add: readInputs_def Let_def lcd_defs digits_only_def)

lemma dispatch_digits:
  "digits_only (inputString s) \<Longrightarrow> digits_only (inputString (dispatch e s))"
  by (simp add: dispatch_def handlers_inputString readInputs_digits)

lemma countdown_inputString: "inputString (countdown e s) = inputString s"
  by (simp add: countdown_def)

lemma loop_digits:
  "digits_only (inputString s) \<Longrightarrow> digits_only (inputString (loop e s))"
  by (simp add: loop_eq countdown_inputString dispatch_digits)

lemma loop_nonneg:
  assumes "0 \<le> sint (inputTime s)"
    and "digits_only (inputString s)"
    and "confirms_duration e s \<longrightarrow> entered_value (inputString s) \<le> 2147483647"
  shows "0 \<le> sint (inputTime (loop e s))"
proof -
  have "0 \<le> sint (inputTime (dispatch e s))"
  proof (cases "ovenState s = INPUT_PHASE")
    case True
    show ?thesis
    proof (cases "confirms_duration e s")
      case c: True
      with assms(3) have "entered_value (inputString s) \<le> 2147483647"
        by simp
      from sint_toInt_entered [OF assms(2) this] entered_value_nonneg [OF assms(2)] True c
      show ?thesis
        by (simp add: dispatch_inputTime_input)
    next
      case False
      with True assms(1) show ?thesis
        by (simp add: dispatch_inputTime_input)
    qed
  next
    case False
    then show ?thesis
      using assms(1) by (simp add: dispatch_inputTime)
  qed
  then show ?thesis
    using countdown_inputTime [of e "dispatch e s"] by (simp add: loop_eq)
qed

lemma loop_not_increasing:
  assumes "ovenState s \<noteq> INPUT_PHASE"
  shows "sint (inputTime (loop e s)) \<le> sint (inputTime s)"
  using countdown_inputTime [of e "dispatch e s"] dispatch_inputTime [OF assms, of e]
  by (simp add: loop_eq)

lemma run_nonneg:
  "0 \<le> sint (inputTime s) \<Longrightarrow> digits_only (inputString s) \<Longrightarrow> bounded_entries es s \<Longrightarrow>
   0 \<le> sint (inputTime (cycles es s))"
proof (induction es arbitrary: s)
  case Nil
  then show ?case by simp
next
  case (Cons e es)
  from Cons.prems have t: "0 \<le> sint (inputTime (loop e s))"
    by (intro loop_nonneg) simp_all
  from Cons.prems have d: "digits_only (inputString (loop e s))"
    by (intro loop_digits)
  from Cons.prems have "bounded_entries es (loop e s)"
    by simp
  from Cons.IH [OF t d this] show ?case by simp
qed

lemma reachable_digits:
  "digits_only (inputString (cycles es (setup_oven power_on)))"
proof -
  have run: "digits_only (inputString s) \<Longrightarrow> digits_only (inputString (cycles es s))" for s
    by (induction es arbitrary: s) (simp_all add: loop_digits)
  have "digits_only (inputString (setup_oven power_on))"
    by code_simp
  then show ?thesis by (rule run)
qed

lemma run_not_increasing:
  "active_run es s \<Longrightarrow> sint (inputTime (cycles es s)) \<le> sint (inputTime s)"
proof (induction es arbitrary: s)
  case Nil
  then show ?case by simp
next
  case (Cons e es)
  from Cons.prems have "sint (inputTime (loop e s)) \<le> sint (inputTime s)"
    by (intro loop_not_increasing) simp
  with Cons.prems Cons.IH [of "loop e s"] show ?case by simp
qed

text \<open>
  C8 (as amended). Along any run from a state whose remaining time is non-negative and
  whose pending string holds digits only (as in every state reachable from start-up),
  if every duration confirmed on the keypad is, as typed, at most 2147483647 (it fits
  the signed 32-bit \<open>long\<close> that stores it), the remaining time is never negative; and
  along any run whose passes all start in a state other than \<open>INPUT_PHASE\<close> (a single
  pass included), the remaining time never increases.
\<close>

theorem countdown_invariant:
  "(0 \<le> sint (inputTime s) \<and> digits_only (inputString s) \<and> bounded_entries es s \<longrightarrow>
      0 \<le> sint (inputTime (cycles es s))) \<and>
   (active_run es s \<longrightarrow> sint (inputTime (cycles es s)) \<le> sint (inputTime s))"
  using run_nonneg [of s es] run_not_increasing [of es s] by simp

text \<open>
  Witness: from start-up, the keys \<open>180#2#\<close> and two passes of heating, one second
  elapsing in the first.
\<close>

theorem countdown_invariant_witness:
  "0 \<le> sint (inputTime (setup_oven power_on)) \<and>
   digits_only (inputString (setup_oven power_on)) \<and>
   bounded_entries
     (keypresses ''180#2#'' @ [pass (CHR 0x00) 150 1000, pass (CHR 0x00) 150 1500])
     (setup_oven power_on) \<and>
   0 \<le> sint (inputTime (cycles
     (keypresses ''180#2#'' @ [pass (CHR 0x00) 150 1000, pass (CHR 0x00) 150 1500])
     (setup_oven power_on))) \<and>
   active_run [pass (CHR 0x00) 150 1000, pass (CHR 0x00) 150 1500]
     (cycles (keypresses ''180#2#'') (setup_oven power_on)) \<and>
   sint (inputTime (cycles [pass (CHR 0x00) 150 1000, pass (CHR 0x00) 150 1500]
     (cycles (keypresses ''180#2#'') (setup_oven power_on))))
     \<le> sint (inputTime (cycles (keypresses ''180#2#'') (setup_oven power_on)))"
proof -
  let ?es = "keypresses ''180#2#'' @ [pass (CHR 0x00) 150 1000, pass (CHR 0x00) 150 1500]"
  let ?bs = "[pass (CHR 0x00) 150 1000, pass (CHR 0x00) 150 1500]"
  let ?s1 = "cycles (keypresses ''180#2#'') (setup_oven power_on)"
  have h1: "0 \<le> sint (inputTime (setup_oven power_on))" by code_simp
  have h2: "bounded_entries ?es (setup_oven power_on)" by code_simp
  have h3: "active_run ?bs ?s1" by code_simp
  have h4: "digits_only (inputString (setup_oven power_on))" by code_simp
  show ?thesis
    using countdown_invariant [of "setup_oven power_on" ?es]
      countdown_invariant [of ?s1 ?bs] h1 h2 h3 h4
    by simp
qed

text \<open>
  Counterexample to C8 as stated (any non-negative entered duration): the duration
  2147483648, typed with digit keys only, is non-negative, but it is stored as
  -2147483648, so the remaining time is negative as soon as the oven enters
  \<open>HEATING\<close>.
\<close>

theorem countdown_negative_counterexample:
  "0 \<le> sint (inputTime (setup_oven power_on)) \<and>
   digits_only ''2147483648'' \<and>
   entered_value ''2147483648'' = 2147483648 \<and>
   ovenState (cycles (keypresses ''180#2147483648#'') (setup_oven power_on)) = HEATING \<and>
   sint (inputTime (cycles (keypresses ''180#2147483648#'') (setup_oven power_on)))
     = - 2147483648"
  by code_simp

text \<open>
  C9. During input collection, a pass that reads \<open>#\<close> while the pending digit string is
  empty changes neither the state, the entry phase, the stored temperature or duration,
  the pending string, the pins nor the display, in the temperature phase and in the
  duration phase alike. The only variable written is the timing reference
  \<open>startTime1\<close>, in the duration phase.
\<close>

theorem empty_terminator_is_ignored:
  assumes "ovenState s = INPUT_PHASE" and "key e = CHR ''#''" and "inputString s = ''''"
  shows "loop e s = (if tempOrTime s = 1 then s\<lparr>startTime1 := now_input e\<rparr> else s) \<and>
         ovenState (loop e s) = ovenState s \<and>
         tempOrTime (loop e s) = tempOrTime s \<and>
         inputTemperature (loop e s) = inputTemperature s \<and>
         inputTime (loop e s) = inputTime s \<and>
         inputString (loop e s) = inputString s \<and>
         pins (loop e s) = pins s \<and>
         events (loop e s) = events s"
proof -
  have d: "dispatch e s = (if tempOrTime s = 1 then s\<lparr>startTime1 := now_input e\<rparr> else s)"
    using assms by (simp add: dispatch_def readInputs_def Let_def hash_not_digit)
  show ?thesis
    using assms(1) by (simp add: loop_eq d countdown_def)
qed

text \<open>
  Witness: \<open>#\<close> as the first key after start-up (temperature phase), and \<open>#\<close> right
  after the temperature \<open>180#\<close> was confirmed (duration phase).
\<close>

theorem empty_terminator_is_ignored_witness:
  "ovenState (setup_oven power_on) = INPUT_PHASE \<and>
   key (pass (CHR ''#'') 20 0) = CHR ''#'' \<and>
   inputString (setup_oven power_on) = '''' \<and>
   tempOrTime (setup_oven power_on) = 0 \<and>
   loop (pass (CHR ''#'') 20 0) (setup_oven power_on) = setup_oven power_on \<and>
   ovenState (cycles (keypresses ''180#'') (setup_oven power_on)) = INPUT_PHASE \<and>
   inputString (cycles (keypresses ''180#'') (setup_oven power_on)) = '''' \<and>
   tempOrTime (cycles (keypresses ''180#'') (setup_oven power_on)) = 1 \<and>
   ovenState (loop (pass (CHR ''#'') 20 0) (cycles (keypresses ''180#'') (setup_oven power_on)))
     = INPUT_PHASE \<and>
   tempOrTime (loop (pass (CHR ''#'') 20 0) (cycles (keypresses ''180#'') (setup_oven power_on)))
     = 1 \<and>
   inputTemperature (loop (pass (CHR ''#'') 20 0)
       (cycles (keypresses ''180#'') (setup_oven power_on)))
     = inputTemperature (cycles (keypresses ''180#'') (setup_oven power_on)) \<and>
   inputTime (loop (pass (CHR ''#'') 20 0) (cycles (keypresses ''180#'') (setup_oven power_on)))
     = inputTime (cycles (keypresses ''180#'') (setup_oven power_on))"
proof -
  let ?s0 = "setup_oven power_on"
  let ?s1 = "cycles (keypresses ''180#'') (setup_oven power_on)"
  let ?e = "pass (CHR ''#'') 20 0"
  have k: "key ?e = CHR ''#''" by (simp add: pass_def)
  have a1: "ovenState ?s0 = INPUT_PHASE" by code_simp
  have a2: "inputString ?s0 = ''''" by code_simp
  have a3: "tempOrTime ?s0 = 0" by code_simp
  have b1: "ovenState ?s1 = INPUT_PHASE" by code_simp
  have b2: "inputString ?s1 = ''''" by code_simp
  have b3: "tempOrTime ?s1 = 1" by code_simp
  show ?thesis
    using empty_terminator_is_ignored [OF a1 k a2] empty_terminator_is_ignored [OF b1 k b2]
      k a1 a2 a3 b1 b2 b3
    by simp
qed

text \<open>
  C10. A call of \<open>activateHeatingElements\<close> with a level outside 0 to 3 changes nothing:
  the switch has no default case, so in particular the three heating-element lines keep
  their levels.
\<close>

theorem activateHeatingElements_out_of_range:
  "numElements \<notin> {0, 1, 2, 3} \<Longrightarrow>
   activateHeatingElements numElements s = s \<and>
   heating_elements (activateHeatingElements numElements s) = heating_elements s"
  by (simp add: activateHeatingElements_def)

theorem activateHeatingElements_out_of_range_witness:
  "(7 :: 8 word) \<notin> {0, 1, 2, 3} \<and>
   activateHeatingElements 7 (setup_oven power_on) = setup_oven power_on \<and>
   heating_elements (activateHeatingElements 7 (setup_oven power_on))
     = heating_elements (setup_oven power_on)"
  using activateHeatingElements_out_of_range [of 7 "setup_oven power_on"] by simp

end
